theory Spec2Isabelle
  imports Main "HOL-Library.Word"
begin

unbundle bit_operations_syntax

section \<open>JavaScript values used by the extension\<close>

text \<open>
  A JavaScript string is modelled as the list of its code units, for code units below 256
  (\<^typ>\<open>char\<close>). A value that may be \<^verbatim>\<open>undefined\<close> (or \<^verbatim>\<open>null\<close>) is an
  \<^typ>\<open>'a option\<close>, with \<^const>\<open>None\<close> for \<^verbatim>\<open>undefined\<close>: reading a property that
  was never assigned and reading one that holds \<^verbatim>\<open>undefined\<close> give the same value.
\<close>

definition LF :: char where
  "LF = CHR 0x0A"

definition CR :: char where
  "CR = CHR 0x0D"

text \<open>Truthiness of a string-or-undefined value: \<^verbatim>\<open>undefined\<close> and \<^verbatim>\<open>""\<close> are falsy.\<close>

fun truthy :: "string option \<Rightarrow> bool" where
  "truthy None = False"
| "truthy (Some s) = (s \<noteq> [])"

section \<open>popup.js: the Calendar class and its ICS parser\<close>

text \<open>
  An event object as \<^verbatim>\<open>parseICS\<close> builds it: \<^verbatim>\<open>{}\<close> with the properties
  \<^verbatim>\<open>start\<close>, \<^verbatim>\<open>end\<close>, \<^verbatim>\<open>name\<close> and \<^verbatim>\<open>calendarTitle\<close> assigned as lines arrive.
\<close>

record event =
  start :: "string option"
  end' :: "string option"
  name :: "string option"
  calendarTitle :: "string option"

text \<open>
  A \<^verbatim>\<open>Calendar\<close> instance; the same shape is the \<^verbatim>\<open>{title, events}\<close> object that is
  written to the store. \<^verbatim>\<open>title\<close> starts as \<^verbatim>\<open>""\<close> and can become \<^verbatim>\<open>undefined\<close>
  (an \<^verbatim>\<open>X-WR-CALNAME\<close> line without a colon).
\<close>

record calendar =
  title :: "string option"
  events :: "event list"

definition getEvents :: "calendar \<Rightarrow> event list" where
  "getEvents cal = events cal"

definition getTitle :: "calendar \<Rightarrow> string option" where
  "getTitle cal = title cal"

text \<open>
  \<^verbatim>\<open>data.split(/\r?\n/)\<close>: the pieces between the matches of the pattern, scanning from
  the left. A line feed ends a piece, and so does a carriage return directly followed by
  a line feed; any other carriage return is an ordinary character. The first argument
  holds the piece being read, reversed.
\<close>

fun split_lines_from :: "string \<Rightarrow> string \<Rightarrow> string list" where
  "split_lines_from cur [] = [rev cur]"
| "split_lines_from cur [c] = (if c = LF then [rev cur, []] else [rev (c # cur)])"
| "split_lines_from cur (c # d # cs) =
     (if c = LF then rev cur # split_lines_from [] (d # cs)
      else if c = CR \<and> d = LF then rev cur # split_lines_from [] cs
      else split_lines_from (c # cur) (d # cs))"

definition split_lines :: "string \<Rightarrow> string list" where
  "split_lines data = split_lines_from [] data"

text \<open>
  \<^verbatim>\<open>line.split(":")\<close> without a limit: the line is cut at every colon. The result is
  never empty (\<^verbatim>\<open>"".split(":")\<close> is \<^verbatim>\<open>[""]\<close>).
\<close>

fun split_colon :: "string \<Rightarrow> string list" where
  "split_colon [] = [[]]"
| "split_colon (c # cs) =
     (if c = CHR '':'' then [] # split_colon cs
      else (case split_colon cs of
              [] \<Rightarrow> [[c]]
            | p # ps \<Rightarrow> (c # p) # ps))"

text \<open>
  \<^verbatim>\<open>const [key, value] = line.split(":", 2)\<close>: the limit keeps the first two pieces of
  the full split and drops the others; \<^verbatim>\<open>value\<close> is \<^verbatim>\<open>undefined\<close> when the line has
  no colon.
\<close>

definition key_value :: "string \<Rightarrow> string \<times> string option" where
  "key_value line =
     (case take 2 (split_colon line) of
        [] \<Rightarrow> ([], None)
      | [k] \<Rightarrow> (k, None)
      | k # v # _ \<Rightarrow> (k, Some v))"

text \<open>
  The body of the \<^verbatim>\<open>forEach\<close> callback of \<^verbatim>\<open>parseICS\<close>. The state is the calendar
  (\<^verbatim>\<open>this\<close>) and \<^verbatim>\<open>currentEvent\<close>, which is \<^verbatim>\<open>null\<close> or an event object.
\<close>

definition parse_line :: "calendar \<times> event option \<Rightarrow> string \<Rightarrow> calendar \<times> event option" where
  "parse_line st line =
     (let (this, currentEvent) = st; (key, val) = key_value line in
      if key = ''X-WR-CALNAME'' then (this\<lparr>title := val\<rparr>, currentEvent)
      else if line = ''BEGIN:VEVENT'' then
        (this, Some \<lparr>start = None, end' = None, name = None, calendarTitle = None\<rparr>)
      else if line = ''END:VEVENT'' then
        (case currentEvent of
           Some ev \<Rightarrow> (this\<lparr>events := events this @ [ev\<lparr>calendarTitle := title this\<rparr>]\<rparr>, None)
         | None \<Rightarrow> (this, currentEvent))
      else if key = ''DTSTART;VALUE=DATE'' then
        (case currentEvent of
           Some ev \<Rightarrow> (this, Some (ev\<lparr>start := val\<rparr>))
         | None \<Rightarrow> (this, currentEvent))
      else if key = ''DTEND;VALUE=DATE'' then
        (case currentEvent of
           Some ev \<Rightarrow> (this, Some (ev\<lparr>end' := val\<rparr>))
         | None \<Rightarrow> (this, currentEvent))
      else if key = ''SUMMARY'' then
        (case currentEvent of
           Some ev \<Rightarrow> (this, Some (ev\<lparr>name := val\<rparr>))
         | None \<Rightarrow> (this, currentEvent))
      else (this, currentEvent))"

definition parse_lines :: "calendar \<times> event option \<Rightarrow> string list \<Rightarrow> calendar \<times> event option" where
  "parse_lines st lines = foldl parse_line st lines"

text \<open>
  \<^verbatim>\<open>parseICS(data)\<close>: the event list is emptied, the title is kept, and the lines are
  processed in order. The accumulator \<^verbatim>\<open>currentEvent\<close> is local and is dropped at the end.
  No statement of the method throws for a string argument, so the model is a total function.
\<close>

definition parseICS :: "calendar \<Rightarrow> string \<Rightarrow> calendar" where
  "parseICS this data = fst (parse_lines (this\<lparr>events := []\<rparr>, None) (split_lines data))"

text \<open>\<^verbatim>\<open>new Calendar("")\<close>: no events, the empty title, and no file to load.\<close>

definition new_Calendar :: calendar where
  "new_Calendar = \<lparr>title = Some [], events = []\<rparr>"

subsection \<open>Hand-built ICS documents\<close>

text \<open>
  The documents of the round-trip property: a title line, then one block of five lines
  for each triple of start, end and summary, every line closed by the same line break.
\<close>

definition block_lines :: "string \<times> string \<times> string \<Rightarrow> string list" where
  "block_lines b =
     (case b of (s, e, n) \<Rightarrow>
        [''BEGIN:VEVENT'', ''DTSTART;VALUE=DATE:'' @ s, ''DTEND;VALUE=DATE:'' @ e,
         ''SUMMARY:'' @ n, ''END:VEVENT''])"

definition document_lines :: "string \<Rightarrow> (string \<times> string \<times> string) list \<Rightarrow> string list" where
  "document_lines t bs = (''X-WR-CALNAME:'' @ t) # concat (map block_lines bs)"

definition ics_text :: "string \<Rightarrow> string list \<Rightarrow> string" where
  "ics_text nl ls = concat (map (\<lambda>l. l @ nl) ls)"

text \<open>A value with no line break character and no colon.\<close>

definition plain_value :: "string \<Rightarrow> bool" where
  "plain_value v = (LF \<notin> set v \<and> CR \<notin> set v \<and> CHR '':'' \<notin> set v)"

text \<open>The event expected from a block of a document with title \<open>t\<close>.\<close>

definition block_event :: "string \<Rightarrow> string \<times> string \<times> string \<Rightarrow> event" where
  "block_event t b =
     (case b of (s, e, n) \<Rightarrow>
        \<lparr>start = Some s, end' = Some e, name = Some n, calendarTitle = Some t\<rparr>)"

section \<open>JavaScript numbers\<close>

text \<open>
  The numbers of content.js are integers or \<^verbatim>\<open>NaN\<close>. Negative zero is identified with
  zero: both print as \<^verbatim>\<open>0\<close> and both convert to the 32-bit integer 0.
\<close>

datatype jsnum = NaN | Num int

text \<open>\<^verbatim>\<open>ToInt32\<close>: the operands of the bitwise operators are reduced modulo \<open>2 ^ 32\<close>.\<close>

definition ToInt32 :: "jsnum \<Rightarrow> 32 word" where
  "ToInt32 x = (case x of NaN \<Rightarrow> 0 | Num k \<Rightarrow> word_of_int k)"

text \<open>\<^verbatim>\<open>x >> n\<close> for a shift count below 32: the sign-propagating shift of a 32-bit integer.\<close>

definition shift_right :: "jsnum \<Rightarrow> nat \<Rightarrow> jsnum" where
  "shift_right x n = Num (sint (signed_drop_bit n (ToInt32 x)))"

text \<open>\<^verbatim>\<open>x & y\<close> on 32-bit integers; the result is read as a signed integer.\<close>

definition bit_and :: "jsnum \<Rightarrow> jsnum \<Rightarrow> jsnum" where
  "bit_and x y = Num (sint (ToInt32 x AND ToInt32 y))"

text \<open>\<^verbatim>\<open>x + y\<close> on numbers.\<close>

definition num_add :: "jsnum \<Rightarrow> jsnum \<Rightarrow> jsnum" where
  "num_add x y = (case (x, y) of (Num a, Num b) \<Rightarrow> Num (a + b) | _ \<Rightarrow> NaN)"

text \<open>The decimal digits of a natural number, without padding.\<close>

definition digit_char :: "nat \<Rightarrow> char" where
  "digit_char d = ''0123456789'' ! d"

fun dec :: "nat \<Rightarrow> string" where
  "dec n = (if n < 10 then [digit_char n] else dec (n div 10) @ [digit_char (n mod 10)])"

declare dec.simps [simp del]

text \<open>
  A number inside a template literal (\<^verbatim>\<open>`${year}`\<close>): \<^verbatim>\<open>NaN\<close> prints as such, an
  integer in decimal notation. (Exponent notation starts at \<open>10 ^ 21\<close>; the numbers printed
  here have at most four digits.)
\<close>

definition num_to_string :: "jsnum \<Rightarrow> string" where
  "num_to_string x =
     (case x of
        NaN \<Rightarrow> ''NaN''
      | Num k \<Rightarrow> (if k < 0 then CHR ''-'' # dec (nat (- k)) else dec (nat k)))"

text \<open>
  \<^verbatim>\<open>parseInt(s, 10)\<close>: leading white space is skipped, one sign is read, and the longest
  run of decimal digits that follows is the value; with no digit there the result is
  \<^verbatim>\<open>NaN\<close>. The white space characters are those below 256. The value is exact; JavaScript
  rounds it to a double, which differs only for more than 15 digits.
\<close>

definition is_white_space :: "char \<Rightarrow> bool" where
  "is_white_space c =
     (c \<in> {CHR 0x09, CHR 0x0A, CHR 0x0B, CHR 0x0C, CHR 0x0D, CHR 0x20, CHR 0xA0})"

definition is_digit :: "char \<Rightarrow> bool" where
  "is_digit c = (48 \<le> (of_char c :: nat) \<and> (of_char c :: nat) \<le> 57)"

definition digit_value :: "char \<Rightarrow> nat" where
  "digit_value c = of_char c - 48"

definition digits_value :: "string \<Rightarrow> nat" where
  "digits_value ds = foldl (\<lambda>a c. 10 * a + digit_value c) 0 ds"

definition parseInt :: "string \<Rightarrow> jsnum" where
  "parseInt s =
     (let S = dropWhile is_white_space s;
          (sign, S') =
            (case S of
               [] \<Rightarrow> (1, [])
             | c # r \<Rightarrow>
                 if c = CHR ''-'' then (- 1, r)
                 else if c = CHR ''+'' then (1, r)
                 else (1, S));
          Z = takeWhile is_digit S'
      in if Z = [] then NaN else Num (sign * int (digits_value Z)))"

text \<open>\<^verbatim>\<open>s.substring(a, b)\<close> for indices that are natural numbers.\<close>

definition substring :: "string \<Rightarrow> nat \<Rightarrow> nat \<Rightarrow> string" where
  "substring s a b = take (max a b - min a b) (drop (min a b) s)"

section \<open>content.js: the date conversions\<close>

definition keyToDate :: "jsnum \<Rightarrow> string" where
  "keyToDate dataDateKey =
     (let yearOffset = bit_and (shift_right dataDateKey 9) (Num 0xFF);
          month = bit_and (shift_right dataDateKey 5) (Num 0x0F);
          day = bit_and dataDateKey (Num 0x1F);
          year = num_add (Num 1970) yearOffset
      in num_to_string year @ ''-'' @ num_to_string month @ ''-'' @ num_to_string day)"

text \<open>
  \<^verbatim>\<open>formatICSDate(icsDate)\<close>; the argument is a string or \<^verbatim>\<open>undefined\<close>, and
  \<^verbatim>\<open>!icsDate\<close> holds for \<^verbatim>\<open>undefined\<close> and for the empty string.
\<close>

definition formatICSDate :: "string option \<Rightarrow> string" where
  "formatICSDate icsDate =
     (case icsDate of
        None \<Rightarrow> []
      | Some s \<Rightarrow>
          if s = [] \<or> length s < 8 then []
          else
            (let year = parseInt (substring s 0 4);
                 month = parseInt (substring s 4 6);
                 day = parseInt (substring s 6 8)
             in num_to_string year @ ''-'' @ num_to_string month @ ''-'' @ num_to_string day))"

text \<open>
  The positional value of the digits at the fixed offsets of a date \<^verbatim>\<open>YYYYMMDD\<close>, for
  comparison with \<^const>\<open>formatICSDate\<close>.
\<close>

definition date_year :: "string \<Rightarrow> nat" where
  "date_year s =
     1000 * digit_value (s ! 0) + 100 * digit_value (s ! 1) + 10 * digit_value (s ! 2)
     + digit_value (s ! 3)"

definition date_month :: "string \<Rightarrow> nat" where
  "date_month s = 10 * digit_value (s ! 4) + digit_value (s ! 5)"

definition date_day :: "string \<Rightarrow> nat" where
  "date_day s = 10 * digit_value (s ! 6) + digit_value (s ! 7)"

section \<open>The settings store\<close>

text \<open>
  The document kept by \<^verbatim>\<open>chrome.storage.sync\<close>: each of the four keys is present or
  absent. The field \<open>storedCalendars\<close> is the key \<^verbatim>\<open>loadedCalendars\<close>, named after the
  value that popup.js writes there. An object used as a dictionary is a map from its own
  property names to their values, which are strings; a lookup in it also finds the members
  that every plain object inherits.
\<close>

record store =
  dayColors :: "(string \<rightharpoonup> string) option"
  calendarColors :: "(string \<rightharpoonup> string) option"
  calendarEvents :: "event list option"
  storedCalendars :: "calendar list option"

text \<open>\<^verbatim>\<open>result.key || default\<close> for a key that is absent or holds an object.\<close>

definition or_default :: "'a option \<Rightarrow> 'a \<Rightarrow> 'a" where
  "or_default v d = (case v of None \<Rightarrow> d | Some x \<Rightarrow> x)"

text \<open>
  The invariant of the settings document: \<^verbatim>\<open>calendarEvents\<close> is the concatenation, in
  order, of the events of the entries of \<^verbatim>\<open>loadedCalendars\<close>.
\<close>

definition cache_invariant :: "store \<Rightarrow> bool" where
  "cache_invariant s =
     (or_default (calendarEvents s) [] = concat (map events (or_default (storedCalendars s) [])))"

section \<open>content.js: color resolution and the annotation of day cells\<close>

text \<open>A property name computed from a value: \<^verbatim>\<open>undefined\<close> becomes \<^verbatim>\<open>"undefined"\<close>.\<close>

definition property_key :: "string option \<Rightarrow> string" where
  "property_key v = (case v of None \<Rightarrow> ''undefined'' | Some s \<Rightarrow> s)"

text \<open>
  A value read from a color object: a string that the object holds itself, or a member
  that it inherits from \<^verbatim>\<open>Object.prototype\<close>, given by its property name. The inherited
  members are functions, and \<^verbatim>\<open>__proto__\<close> is the prototype object.
\<close>

datatype jsval = Str string | Inherited string

text \<open>The property names of \<^verbatim>\<open>Object.prototype\<close>.\<close>

definition object_prototype :: "string list" where
  "object_prototype =
     [''constructor'', ''__defineGetter__'', ''__defineSetter__'', ''hasOwnProperty'',
      ''__lookupGetter__'', ''__lookupSetter__'', ''isPrototypeOf'', ''propertyIsEnumerable'',
      ''toString'', ''valueOf'', ''__proto__'', ''toLocaleString'']"

text \<open>
  \<^verbatim>\<open>obj[key]\<close> for a plain object whose own properties are the map \<open>obj\<close>: an own
  property is found first, then a member of the prototype; otherwise the result is
  \<^verbatim>\<open>undefined\<close>.
\<close>

definition get_property :: "(string \<rightharpoonup> string) \<Rightarrow> string \<Rightarrow> jsval option" where
  "get_property obj key =
     (case obj key of
        Some v \<Rightarrow> Some (Str v)
      | None \<Rightarrow> if key \<in> set object_prototype then Some (Inherited key) else None)"

text \<open>Truthiness of a looked-up value: functions and objects are truthy.\<close>

fun truthy_val :: "jsval option \<Rightarrow> bool" where
  "truthy_val None = False"
| "truthy_val (Some (Str s)) = (s \<noteq> [])"
| "truthy_val (Some (Inherited k)) = True"

text \<open>
  The string that a value becomes when it is assigned to a style property: a string is
  itself, a native function prints its name, and the prototype object prints as an object.
\<close>

definition val_to_string :: "jsval \<Rightarrow> string" where
  "val_to_string v =
     (case v of
        Str s \<Rightarrow> s
      | Inherited k \<Rightarrow>
          if k = ''__proto__'' then ''[object Object]''
          else ''function '' @ (if k = ''constructor'' then ''Object'' else k)
               @ ''() { [native code] }'')"


text \<open>
  The \<^verbatim>\<open>for (let event of calendarEvents)\<close> loop of \<^verbatim>\<open>applyCustomColors\<close>, with its
  \<^verbatim>\<open>break\<close>; the last argument is \<^verbatim>\<open>appliedColor\<close> before the loop.
\<close>

fun scan_events :: "(string \<rightharpoonup> string) \<Rightarrow> string \<Rightarrow> jsval option \<Rightarrow> event list \<Rightarrow> jsval option" where
  "scan_events calendarCols dateStr appliedColor [] = appliedColor"
| "scan_events calendarCols dateStr appliedColor (event # rest) =
     (let eventDate = formatICSDate (start event) in
      if eventDate = dateStr
         \<and> truthy_val (get_property calendarCols (property_key (calendarTitle event)))
      then get_property calendarCols (property_key (calendarTitle event))
      else scan_events calendarCols dateStr appliedColor rest)"

text \<open>
  Lines 49 to 60: the color for a date. The first argument is \<^verbatim>\<open>getWeekDayName\<close> with
  the browser's date parser and weekday printer supplied. The result \<^const>\<open>None\<close> is
  \<^verbatim>\<open>null\<close>.
\<close>

definition resolve_color ::
  "(string \<Rightarrow> string) \<Rightarrow> (string \<rightharpoonup> string) \<Rightarrow> (string \<rightharpoonup> string) \<Rightarrow> event list \<Rightarrow> string
   \<Rightarrow> jsval option" where
  "resolve_color weekDayName dayCols calendarCols events' dateStr =
     (let dayName = weekDayName dateStr;
          appliedColor =
            (if truthy_val (get_property dayCols dayName) then get_property dayCols dayName
             else None)
      in scan_events calendarCols dateStr appliedColor events')"


text \<open>
  A day cell: its two date attributes, the marker \<^verbatim>\<open>dataset.customColored\<close>, and the two
  inline style properties as the script last assigned them.
\<close>

record cell =
  data_datekey :: "string option"
  data_date :: "string option"
  customColored :: "string option"
  backgroundColor :: string
  opacity :: string

definition cell_dateStr :: "cell \<Rightarrow> string" where
  "cell_dateStr c =
     (case data_datekey c of
        Some k \<Rightarrow> keyToDate (parseInt k)
      | None \<Rightarrow> (case data_date c of Some d \<Rightarrow> d | None \<Rightarrow> []))"

text \<open>
  The color that a pass over the store \<open>result\<close> resolves for the date of a cell: the
  defaults of lines 32 to 34, then lines 49 to 60.
\<close>

definition cell_color :: "(string \<Rightarrow> string) \<Rightarrow> store \<Rightarrow> cell \<Rightarrow> jsval option" where
  "cell_color weekDayName result c =
     resolve_color weekDayName (or_default (dayColors result) Map.empty)
       (or_default (calendarColors result) Map.empty) (or_default (calendarEvents result) [])
       (cell_dateStr c)"

text \<open>The assignments that the script makes to a cell.\<close>

datatype cell_write =
  SetMarker string
  | SetBackgroundColor string
  | SetOpacity string
  | DeleteMarker

fun do_write :: "cell \<Rightarrow> cell_write \<Rightarrow> cell" where
  "do_write c (SetMarker v) = c\<lparr>customColored := Some v\<rparr>"
| "do_write c (SetBackgroundColor v) = c\<lparr>backgroundColor := v\<rparr>"
| "do_write c (SetOpacity v) = c\<lparr>opacity := v\<rparr>"
| "do_write c DeleteMarker = c\<lparr>customColored := None\<rparr>"

text \<open>
  The body of \<^verbatim>\<open>dayCells.forEach\<close>, as the list of assignments it makes to the cell, in
  order. \<open>weekDayName\<close> is \<^verbatim>\<open>getWeekDayName\<close> with the browser's parts supplied and
  \<open>darkMode\<close> is the result of \<^verbatim>\<open>detectDarkMode()\<close>.
\<close>

definition cell_writes :: "(string \<Rightarrow> string) \<Rightarrow> bool \<Rightarrow> store \<Rightarrow> cell \<Rightarrow> cell_write list" where
  "cell_writes weekDayName darkMode result c =
     (let dayCols = or_default (dayColors result) Map.empty;
          calendarCols = or_default (calendarColors result) Map.empty;
          events' = or_default (calendarEvents result) [];
          dateStr = cell_dateStr c
      in if dateStr = [] then []
         else
           (let appliedColor = resolve_color weekDayName dayCols calendarCols events' dateStr in
            if truthy_val appliedColor then
              (if \<not> truthy (customColored c) then
                 [SetMarker ''true'', SetBackgroundColor (val_to_string (the appliedColor)),
                  SetOpacity (if darkMode then ''0.7'' else ''0.9'')]
               else [])
            else if truthy (customColored c) then
              [SetBackgroundColor [], SetOpacity [], DeleteMarker]
            else []))"

definition apply_cell :: "(string \<Rightarrow> string) \<Rightarrow> bool \<Rightarrow> store \<Rightarrow> cell \<Rightarrow> cell" where
  "apply_cell weekDayName darkMode result c =
     foldl do_write c (cell_writes weekDayName darkMode result c)"

text \<open>One pass of \<^verbatim>\<open>applyCustomColors\<close> over the selected cells.\<close>

definition applyCustomColors :: "(string \<Rightarrow> string) \<Rightarrow> bool \<Rightarrow> store \<Rightarrow> cell list \<Rightarrow> cell list" where
  "applyCustomColors weekDayName darkMode result dayCells =
     map (apply_cell weekDayName darkMode result) dayCells"

section \<open>popup.js: the list of loaded calendars\<close>

text \<open>
  The state of the popup: the global \<^verbatim>\<open>loadedCalendars\<close>, the settings store, and the
  keys of each \<^verbatim>\<open>chrome.storage.sync.set\<close> call so far, oldest first.
\<close>

record popup =
  loadedCalendars :: "calendar list"
  storage :: store
  set_calls :: "string list list"

text \<open>
  \<^verbatim>\<open>loadedCalendars.map(cal => ({ title: cal.getTitle(), events: cal.getEvents() }))\<close>
\<close>

definition to_stored :: "calendar list \<Rightarrow> calendar list" where
  "to_stored cals = map (\<lambda>cal. \<lparr>title = getTitle cal, events = getEvents cal\<rparr>) cals"

text \<open>\<^verbatim>\<open>xs.splice(i, 1)\<close> for an index within the list.\<close>

definition splice1 :: "nat \<Rightarrow> 'a list \<Rightarrow> 'a list" where
  "splice1 i xs = take i xs @ drop (Suc i) xs"

text \<open>
  \<^verbatim>\<open>removeCalendar(index)\<close>; the index comes from \<^verbatim>\<open>parseInt\<close> of the button's
  \<^verbatim>\<open>data-index\<close>, which the popup renders from a list position.
\<close>

definition removeCalendar :: "int \<Rightarrow> popup \<Rightarrow> popup" where
  "removeCalendar index p =
     (if index < 0 \<or> index \<ge> int (length (loadedCalendars p)) then p
      else
        (let cals = splice1 (nat index) (loadedCalendars p) in
         p\<lparr>loadedCalendars := cals,
           storage := (storage p)\<lparr>storedCalendars := Some (to_stored cals)\<rparr>,
           set_calls := set_calls p @ [[''loadedCalendars'']]\<rparr>))"

text \<open>The click handler of the load button, once the file has been parsed into \<open>cal\<close>.\<close>

definition load_calendar :: "calendar \<Rightarrow> popup \<Rightarrow> popup" where
  "load_calendar cal p =
     (let cals = loadedCalendars p @ [cal] in
      p\<lparr>loadedCalendars := cals,
        storage := (storage p)\<lparr>storedCalendars := Some (to_stored cals)\<rparr>,
        set_calls := set_calls p @ [[''loadedCalendars'']]\<rparr>)"

text \<open>
  The submit handler of the settings form, lines 224 to 237. The two color maps are
  gathered from the form's check boxes and are parameters.
\<close>

definition settings_submit :: "(string \<rightharpoonup> string) \<Rightarrow> (string \<rightharpoonup> string) \<Rightarrow> popup \<Rightarrow> popup" where
  "settings_submit dayCols calendarCols p =
     (let calendarEvts = foldl (\<lambda>acc cal. acc @ getEvents cal) [] (loadedCalendars p) in
      p\<lparr>storage :=
          \<lparr>dayColors = Some dayCols, calendarColors = Some calendarCols,
           calendarEvents = Some calendarEvts,
           storedCalendars = Some (to_stored (loadedCalendars p))\<rparr>,
        set_calls := set_calls p
          @ [[''dayColors'', ''calendarColors'', ''calendarEvents'', ''loadedCalendars'']]\<rparr>)"

text \<open>
  A popup that holds one calendar with one event, with the store as a save leaves it: the
  store lists the calendar and its event.
\<close>

definition work_event :: event where
  "work_event =
     \<lparr>start = Some ''20240115'', end' = Some ''20240116'', name = Some ''Standup'',
      calendarTitle = Some ''Work''\<rparr>"

definition work_popup :: popup where
  "work_popup =
     \<lparr>loadedCalendars = [\<lparr>title = Some ''Work'', events = [work_event]\<rparr>],
      storage =
        \<lparr>dayColors = Some Map.empty, calendarColors = Some [''Work'' \<mapsto> ''green''],
         calendarEvents = Some [work_event],
         storedCalendars = Some [\<lparr>title = Some ''Work'', events = [work_event]\<rparr>]\<rparr>,
      set_calls = []\<rparr>"

section \<open>Properties of the ICS parser\<close>

lemma parse_line_events:
  "line \<noteq> ''END:VEVENT'' \<Longrightarrow> events (fst (parse_line st line)) = events (fst st)"
  by (cases st) (simp add: parse_line_def split: prod.splits option.splits)

lemma parse_lines_events:
  "''END:VEVENT'' \<notin> set lines \<Longrightarrow> events (fst (parse_lines st lines)) = events (fst st)"
  unfolding parse_lines_def
proof (induction lines arbitrary: st)
  case Nil
  then show ?case by simp
next
  case (Cons l ls)
  then have "events (fst (foldl parse_line (parse_line st l) ls)) = events (fst (parse_line st l))"
    by simp
  also have "\<dots> = events (fst st)"
    using Cons.prems by (intro parse_line_events) auto
  finally show ?case by simp
qed

lemma parse_line_BEGIN:
  "fst (parse_line st ''BEGIN:VEVENT'') = fst st"
  by (cases st) (simp add: parse_line_def key_value_def)

text \<open>
  Claim C9. When the lines of the input are \<open>pre\<close>, then \<^verbatim>\<open>BEGIN:VEVENT\<close>, then lines
  \<open>post\<close> none of which is \<^verbatim>\<open>END:VEVENT\<close>, the events of the parsed calendar are
  exactly those that the lines \<open>pre\<close> emit: the event opened last is never emitted. In
  particular the text \<^verbatim>\<open>"BEGIN:VEVENT\nSUMMARY:x\n"\<close> parses to no event. The parser is a
  total function of the text: it has no failing branch.
\<close>

theorem parseICS_unclosed_event_dropped:
  "(split_lines data = pre @ ''BEGIN:VEVENT'' # post \<and> ''END:VEVENT'' \<notin> set post \<longrightarrow>
      events (parseICS this data) = events (fst (parse_lines (this\<lparr>events := []\<rparr>, None) pre)))
   \<and> events (parseICS this (''BEGIN:VEVENT'' @ [LF] @ ''SUMMARY:x'' @ [LF])) = []"
proof (intro conjI impI)
  assume a: "split_lines data = pre @ ''BEGIN:VEVENT'' # post \<and> ''END:VEVENT'' \<notin> set post"
  let ?s = "parse_lines (this\<lparr>events := []\<rparr>, None) pre"
  have "parse_lines (this\<lparr>events := []\<rparr>, None) (split_lines data)
        = parse_lines (parse_line ?s ''BEGIN:VEVENT'') post"
    using a by (simp add: parse_lines_def)
  then have "events (parseICS this data) = events (fst (parse_line ?s ''BEGIN:VEVENT''))"
    using a by (simp add: parseICS_def parse_lines_events)
  then show "events (parseICS this data) = events (fst ?s)"
    by (simp add: parse_line_BEGIN)
next
  show "events (parseICS this (''BEGIN:VEVENT'' @ [LF] @ ''SUMMARY:x'' @ [LF])) = []"
    by (simp add: parseICS_def parse_lines_def parse_line_def key_value_def split_lines_def
        LF_def CR_def)
qed

text \<open>
  A closed block followed by an open one: the hypothesis of the theorem holds with
  \<open>pre\<close> the three lines of the closed block, and only the closed event is emitted.
\<close>

theorem parseICS_unclosed_event_dropped_witness:
  "split_lines (''BEGIN:VEVENT'' @ [LF] @ ''SUMMARY:a'' @ [LF] @ ''END:VEVENT'' @ [LF] @
      ''BEGIN:VEVENT'' @ [LF] @ ''SUMMARY:x'' @ [LF])
     = [''BEGIN:VEVENT'', ''SUMMARY:a'', ''END:VEVENT''] @ ''BEGIN:VEVENT'' # [''SUMMARY:x'', []]
   \<and> ''END:VEVENT'' \<notin> set [''SUMMARY:x'', []]
   \<and> events (parseICS new_Calendar
     (''BEGIN:VEVENT'' @ [LF] @ ''SUMMARY:a'' @ [LF] @ ''END:VEVENT'' @ [LF] @
      ''BEGIN:VEVENT'' @ [LF] @ ''SUMMARY:x'' @ [LF]))
     = [\<lparr>start = None, end' = None, name = Some ''a'', calendarTitle = Some []\<rparr>]"
  using parseICS_unclosed_event_dropped
    [of "''BEGIN:VEVENT'' @ [LF] @ ''SUMMARY:a'' @ [LF] @ ''END:VEVENT'' @ [LF] @
      ''BEGIN:VEVENT'' @ [LF] @ ''SUMMARY:x'' @ [LF]"
      "[''BEGIN:VEVENT'', ''SUMMARY:a'', ''END:VEVENT'']" "[''SUMMARY:x'', []]" new_Calendar]
  by (simp add: parse_lines_def parse_line_def key_value_def split_lines_def
        LF_def CR_def new_Calendar_def)

lemma split_colon_no_colon: "CHR '':'' \<notin> set v \<Longrightarrow> split_colon v = [v]"
  by (induction v) auto

lemma split_colon_ne: "split_colon s \<noteq> []"
  by (induction s) (auto split: list.splits)

lemma split_colon_first: "CHR '':'' \<notin> set k \<Longrightarrow> split_colon (k @ CHR '':'' # r) = k # split_colon r"
  by (induction k) auto

lemma hd_split_colon: "hd (split_colon s) = takeWhile (\<lambda>c. c \<noteq> CHR '':'') s"
  by (induction s) (auto split: list.splits simp: split_colon_ne)

lemma key_value_colon:
  "CHR '':'' \<notin> set k \<Longrightarrow>
   key_value (k @ CHR '':'' # r) = (k, Some (takeWhile (\<lambda>c. c \<noteq> CHR '':'') r))"
proof -
  assume k: "CHR '':'' \<notin> set k"
  obtain p ps where p: "split_colon r = p # ps"
    using split_colon_ne [of r] by (cases "split_colon r") auto
  then have "p = takeWhile (\<lambda>c. c \<noteq> CHR '':'') r"
    using hd_split_colon [of r] by simp
  then show ?thesis
    using k p by (simp add: key_value_def split_colon_first)
qed

lemma key_value_plain:
  "CHR '':'' \<notin> set k \<Longrightarrow> CHR '':'' \<notin> set v \<Longrightarrow> key_value (k @ CHR '':'' # v) = (k, Some v)"
  by (auto simp add: key_value_colon)

text \<open>
  Claim C2. The value of a line is the text between its first and its second colon, not
  the whole remainder: a title and a summary that contain a colon are stored cut.
\<close>

theorem parseICS_value_cut_at_second_colon:
  "parseICS new_Calendar
     (''X-WR-CALNAME:Team: A'' @ [LF] @ ''BEGIN:VEVENT'' @ [LF] @
      ''SUMMARY:Standup: daily'' @ [LF] @ ''END:VEVENT'')
   = \<lparr>title = Some ''Team'',
      events = [\<lparr>start = None, end' = None, name = Some ''Standup'', calendarTitle = Some ''Team''\<rparr>]\<rparr>"
  by (simp add: parseICS_def parse_lines_def parse_line_def key_value_def split_lines_def
        LF_def CR_def new_Calendar_def)

lemma CR_neq_LF: "CR \<noteq> LF"
  by (simp add: CR_def LF_def)

lemma split_lines_from_char:
  "c \<noteq> LF \<Longrightarrow> c \<noteq> CR \<Longrightarrow> cs \<noteq> [] \<Longrightarrow>
   split_lines_from cur (c # cs) = split_lines_from (c # cur) cs"
  by (cases cs) simp_all

lemma split_lines_from_LF:
  "split_lines_from cur (LF # rest) = rev cur # split_lines_from [] rest"
  by (cases rest) simp_all

lemma split_lines_from_CRLF:
  "split_lines_from cur (CR # LF # rest) = rev cur # split_lines_from [] rest"
  by (simp add: CR_def LF_def)

lemma split_lines_from_line:
  "LF \<notin> set l \<Longrightarrow> CR \<notin> set l \<Longrightarrow> nl = [LF] \<or> nl = [CR, LF] \<Longrightarrow>
   split_lines_from cur (l @ nl @ rest) = (rev cur @ l) # split_lines_from [] rest"
proof (induction l arbitrary: cur)
  case Nil
  then show ?case
    by (auto simp: split_lines_from_LF split_lines_from_CRLF CR_neq_LF)
next
  case (Cons c l)
  have "split_lines_from cur ((c # l) @ nl @ rest) = split_lines_from (c # cur) (l @ nl @ rest)"
    using Cons.prems by (auto intro!: split_lines_from_char)
  then show ?case
    using Cons by simp
qed

lemma split_lines_ics_text:
  "\<forall>l \<in> set ls. LF \<notin> set l \<and> CR \<notin> set l \<Longrightarrow> nl = [LF] \<or> nl = [CR, LF] \<Longrightarrow>
   split_lines_from [] (ics_text nl ls) = ls @ [[]]"
proof (induction ls)
  case Nil
  then show ?case by (simp add: ics_text_def)
next
  case (Cons l ls)
  have "split_lines_from [] (l @ nl @ ics_text nl ls) = l # split_lines_from [] (ics_text nl ls)"
    using Cons.prems split_lines_from_line [of l nl "[]" "ics_text nl ls"] by simp
  then show ?case
    using Cons by (simp add: ics_text_def)
qed


lemma block_lines_plain:
  assumes "plain_value s" "plain_value e" "plain_value n" "l \<in> set (block_lines (s, e, n))"
  shows "LF \<notin> set l \<and> CR \<notin> set l"
  using assms by (auto simp: block_lines_def plain_value_def LF_def CR_def)

lemma document_lines_plain:
  assumes "plain_value t" "\<forall>(s, e, n) \<in> set bs. plain_value s \<and> plain_value e \<and> plain_value n"
    "l \<in> set (document_lines t bs)"
  shows "LF \<notin> set l \<and> CR \<notin> set l"
proof (cases "l = ''X-WR-CALNAME:'' @ t")
  case True
  then show ?thesis
    using assms(1) by (auto simp: plain_value_def LF_def CR_def)
next
  case False
  then obtain b where b: "b \<in> set bs" "l \<in> set (block_lines b)"
    using assms(3) by (auto simp: document_lines_def)
  obtain s e n where "b = (s, e, n)"
    by (cases b) auto
  then show ?thesis
    using b assms(2) block_lines_plain [of s e n l] by auto
qed

lemma parse_line_CALNAME:
  "CHR '':'' \<notin> set t \<Longrightarrow>
   parse_line (cal, cur) (''X-WR-CALNAME:'' @ t) = (cal\<lparr>title := Some t\<rparr>, cur)"
  using key_value_plain [of "''X-WR-CALNAME''" t]
  by (simp add: parse_line_def)

lemma parse_line_DTSTART:
  "CHR '':'' \<notin> set v \<Longrightarrow>
   parse_line (cal, Some ev) (''DTSTART;VALUE=DATE:'' @ v) = (cal, Some (ev\<lparr>start := Some v\<rparr>))"
  using key_value_plain [of "''DTSTART;VALUE=DATE''" v]
  by (simp add: parse_line_def)

lemma parse_line_DTEND:
  "CHR '':'' \<notin> set v \<Longrightarrow>
   parse_line (cal, Some ev) (''DTEND;VALUE=DATE:'' @ v) = (cal, Some (ev\<lparr>end' := Some v\<rparr>))"
  using key_value_plain [of "''DTEND;VALUE=DATE''" v]
  by (simp add: parse_line_def)

lemma parse_line_SUMMARY:
  "CHR '':'' \<notin> set v \<Longrightarrow>
   parse_line (cal, Some ev) (''SUMMARY:'' @ v) = (cal, Some (ev\<lparr>name := Some v\<rparr>))"
  using key_value_plain [of "''SUMMARY''" v]
  by (simp add: parse_line_def)

lemma parse_line_BEGIN_state:
  "parse_line (cal, cur) ''BEGIN:VEVENT''
   = (cal, Some \<lparr>start = None, end' = None, name = None, calendarTitle = None\<rparr>)"
  by (simp add: parse_line_def key_value_def)

lemma parse_line_END_state:
  "parse_line (cal, Some ev) ''END:VEVENT''
   = (cal\<lparr>events := events cal @ [ev\<lparr>calendarTitle := title cal\<rparr>]\<rparr>, None)"
  by (simp add: parse_line_def key_value_def)

lemma parse_line_empty:
  "parse_line st [] = st"
  by (cases st) (simp add: parse_line_def key_value_def)

lemma parse_lines_block:
  assumes "plain_value s" "plain_value e" "plain_value n" "title cal = Some t"
  shows "parse_lines (cal, cur) (block_lines (s, e, n))
         = (cal\<lparr>events := events cal @ [block_event t (s, e, n)]\<rparr>, None)"
  using assms unfolding parse_lines_def block_lines_def plain_value_def block_event_def
  by (simp add: parse_line_BEGIN_state parse_line_DTSTART parse_line_DTEND parse_line_SUMMARY
      parse_line_END_state del: append.simps)

lemma parse_lines_append:
  "parse_lines st (xs @ ys) = parse_lines (parse_lines st xs) ys"
  by (simp add: parse_lines_def)

lemma parse_lines_blocks:
  assumes "\<forall>(s, e, n) \<in> set bs. plain_value s \<and> plain_value e \<and> plain_value n"
    and "title cal = Some t"
  shows "parse_lines (cal, None) (concat (map block_lines bs))
         = (cal\<lparr>events := events cal @ map (block_event t) bs\<rparr>, None)"
  using assms
proof (induction bs arbitrary: cal)
  case Nil
  then show ?case by (simp add: parse_lines_def)
next
  case (Cons b bs)
  obtain s e n where b: "b = (s, e, n)"
    by (cases b) auto
  let ?cal = "cal\<lparr>events := events cal @ [block_event t b]\<rparr>"
  have "parse_lines (cal, None) (block_lines b) = (?cal, None)"
    using Cons.prems b by (simp add: parse_lines_block)
  moreover have "parse_lines (?cal, None) (concat (map block_lines bs))
      = (?cal\<lparr>events := events ?cal @ map (block_event t) bs\<rparr>, None)"
    using Cons.prems by (intro Cons.IH) auto
  ultimately show ?case
    by (simp add: parse_lines_append)
qed

text \<open>
  Round trip for plain values. For a document with a title line and a block for each of
  the triples \<open>bs\<close>, where the title and every value hold no line break and no colon and
  every line ends with LF or with CR LF, the parser returns the title and one event for
  each block, in order, with the start, end and summary of the block.
\<close>

theorem parseICS_roundtrip:
  assumes "plain_value t"
    and "\<forall>(s, e, n) \<in> set bs. plain_value s \<and> plain_value e \<and> plain_value n"
    and "nl = [LF] \<or> nl = [CR, LF]"
  shows "parseICS this (ics_text nl (document_lines t bs))
         = \<lparr>title = Some t, events = map (block_event t) bs\<rparr>"
proof -
  have "split_lines (ics_text nl (document_lines t bs)) = document_lines t bs @ [[]]"
    unfolding split_lines_def
    using assms document_lines_plain [of t bs] by (intro split_lines_ics_text) auto
  moreover have "parse_line (this\<lparr>events := []\<rparr>, None) (''X-WR-CALNAME:'' @ t)
      = (this\<lparr>events := [], title := Some t\<rparr>, None)"
    using assms(1) parse_line_CALNAME [of t "this\<lparr>events := []\<rparr>" None]
    by (simp add: plain_value_def)
  moreover have "parse_lines (this\<lparr>events := [], title := Some t\<rparr>, None) (concat (map block_lines bs))
      = (this\<lparr>events := map (block_event t) bs, title := Some t\<rparr>, None)"
    using parse_lines_blocks [OF assms(2), of "this\<lparr>events := [], title := Some t\<rparr>" t] by simp
  ultimately have "parse_lines (this\<lparr>events := []\<rparr>, None) (split_lines (ics_text nl (document_lines t bs)))
      = (this\<lparr>events := map (block_event t) bs, title := Some t\<rparr>, None)"
    by (simp add: document_lines_def parse_lines_def parse_line_empty del: append.simps)
  then show ?thesis
    by (simp add: parseICS_def)
qed

text \<open>The round trip at a document with one block and CR LF line breaks.\<close>

theorem parseICS_roundtrip_witness:
  "parseICS new_Calendar
     (''X-WR-CALNAME:Work'' @ [CR, LF] @ ''BEGIN:VEVENT'' @ [CR, LF] @
      ''DTSTART;VALUE=DATE:20240115'' @ [CR, LF] @ ''DTEND;VALUE=DATE:20240116'' @ [CR, LF] @
      ''SUMMARY:Standup'' @ [CR, LF] @ ''END:VEVENT'' @ [CR, LF])
   = \<lparr>title = Some ''Work'',
      events = [\<lparr>start = Some ''20240115'', end' = Some ''20240116'', name = Some ''Standup'',
                 calendarTitle = Some ''Work''\<rparr>]\<rparr>"
  using parseICS_roundtrip [of "''Work''" "[(''20240115'', ''20240116'', ''Standup'')]" "[CR, LF]" new_Calendar]
  by (simp add: plain_value_def ics_text_def document_lines_def block_lines_def block_event_def
      LF_def CR_def)

text \<open>
  Claim C4. A hand-built document of the stated shape whose summary holds a colon: the
  event comes out with the summary cut at that colon.
\<close>

theorem parseICS_document_summary_cut:
  "parseICS new_Calendar
     (ics_text [LF] (document_lines ''Work'' [(''20240115'', ''20240116'', ''Standup: daily'')]))
   = \<lparr>title = Some ''Work'',
      events = [\<lparr>start = Some ''20240115'', end' = Some ''20240116'', name = Some ''Standup'',
                 calendarTitle = Some ''Work''\<rparr>]\<rparr>"
  by (simp add: parseICS_def parse_lines_def parse_line_def key_value_def split_lines_def
        LF_def CR_def new_Calendar_def ics_text_def document_lines_def block_lines_def)

section \<open>Properties of the date conversions\<close>

lemma sint_shift_mask:
  "n + m < 32 \<Longrightarrow>
   sint (signed_drop_bit n (word_of_int k :: 32 word) AND mask m) = drop_bit n k AND mask m"
  by (rule bit_eqI) (auto simp: bit_simps)

lemma sint_mask:
  "m < 32 \<Longrightarrow> sint ((word_of_int k :: 32 word) AND mask m) = k AND mask m"
  by (rule bit_eqI) (auto simp: bit_simps)

lemma numeral_masks:
  "(255 :: 'a :: ring_bit_operations) = mask 8"
  "(15 :: 'a :: ring_bit_operations) = mask 4"
  "(31 :: 'a :: ring_bit_operations) = mask 5"
  by (simp_all add: mask_eq_exp_minus_1)

lemma year_offset_bits:
  "bit_and (shift_right (Num k) 9) (Num 0xFF) = Num (drop_bit 9 k AND 255)"
  using sint_shift_mask [of 9 8 k]
  by (simp add: bit_and_def shift_right_def ToInt32_def numeral_masks of_int_mask_eq)

lemma month_bits:
  "bit_and (shift_right (Num k) 5) (Num 0x0F) = Num (drop_bit 5 k AND 15)"
  using sint_shift_mask [of 5 4 k]
  by (simp add: bit_and_def shift_right_def ToInt32_def numeral_masks of_int_mask_eq)

lemma day_bits:
  "bit_and (Num k) (Num 0x1F) = Num (k AND 31)"
  using sint_mask [of 5 k]
  by (simp add: bit_and_def ToInt32_def numeral_masks of_int_mask_eq)

lemma year_string:
  "num_to_string (num_add (Num 1970) (bit_and (shift_right (Num k) 9) (Num 0xFF)))
   = dec (nat (1970 + (drop_bit 9 k AND 255)))"
proof -
  have "0 \<le> drop_bit 9 k AND 255"
    by simp
  then have "\<not> 1970 + (drop_bit 9 k AND 255) < 0"
    by linarith
  then show ?thesis
    by (simp add: year_offset_bits num_add_def num_to_string_def)
qed

lemma month_string:
  "num_to_string (bit_and (shift_right (Num k) 5) (Num 0x0F)) = dec (nat (drop_bit 5 k AND 15))"
  by (simp add: month_bits num_to_string_def)

lemma day_string:
  "num_to_string (bit_and (Num k) (Num 0x1F)) = dec (nat (k AND 31))"
  by (simp add: day_bits num_to_string_def)

text \<open>The same fields by division: bits 9 to 16, bits 5 to 8 and bits 0 to 4 of the key.\<close>

lemma keyToDate_div_mod:
  "keyToDate (Num k)
   = dec (nat (1970 + (k div 512) mod 256)) @ ''-'' @ dec (nat ((k div 32) mod 16))
     @ ''-'' @ dec (nat (k mod 32))"
proof -
  have "drop_bit 9 k AND 255 = (k div 512) mod 256"
    using take_bit_eq_mask [of 8 "drop_bit 9 k"]
    by (simp add: numeral_masks take_bit_eq_mod drop_bit_eq_div)
  moreover have "drop_bit 5 k AND 15 = (k div 32) mod 16"
    using take_bit_eq_mask [of 4 "drop_bit 5 k"]
    by (simp add: numeral_masks take_bit_eq_mod drop_bit_eq_div)
  moreover have "k AND 31 = k mod 32"
    using take_bit_eq_mask [of 5 k] by (simp add: numeral_masks take_bit_eq_mod)
  ultimately show ?thesis
    using year_string [of k] month_string [of k] day_string [of k]
    by (simp add: keyToDate_def Let_def)
qed

text \<open>
  Claim C5. For every integer day key \<open>k\<close>, also one outside the 32-bit range, the decoder
  returns the year \<open>1970 + ((k >> 9) & 0xFF)\<close>, the month \<open>(k >> 5) & 0xF\<close> and the day
  \<open>k & 0x1F\<close>, each in unpadded decimal notation and joined by \<open>-\<close>. On the right the
  shifts and masks are those of the unbounded integers; \<^const>\<open>keyToDate\<close> computes with
  32-bit words.
\<close>

theorem keyToDate_bits:
  "keyToDate (Num k)
   = dec (nat (1970 + (drop_bit 9 k AND 0xFF))) @ ''-'' @ dec (nat (drop_bit 5 k AND 0xF))
     @ ''-'' @ dec (nat (k AND 0x1F))"
proof -
  let ?year = "num_add (Num 1970) (bit_and (shift_right (Num k) 9) (Num 0xFF))"
  let ?month = "bit_and (shift_right (Num k) 5) (Num 0x0F)"
  let ?day = "bit_and (Num k) (Num 0x1F)"
  have "keyToDate (Num k)
      = num_to_string ?year @ ''-'' @ num_to_string ?month @ ''-'' @ num_to_string ?day"
    by (simp add: keyToDate_def Let_def)
  also have "num_to_string ?year = dec (nat (1970 + (drop_bit 9 k AND 0xFF)))"
    by (rule year_string)
  also have "num_to_string ?month = dec (nat (drop_bit 5 k AND 0xF))"
    by (rule month_string)
  also have "num_to_string ?day = dec (nat (k AND 0x1F))"
    by (rule day_string)
  finally show ?thesis .
qed

lemma keyToDate_example: "keyToDate (Num 27695) = ''2024-1-15''"
  by (simp add: keyToDate_div_mod dec.simps digit_char_def)

text \<open>The decimal notation is read back to the number it was written from.\<close>

lemma digit_value_digit_char: "d < 10 \<Longrightarrow> digit_value (digit_char d) = d"
proof -
  assume "d < 10"
  then have "d \<in> {0, 1, 2, 3, 4, 5, 6, 7, 8, 9}"
    by auto
  then show ?thesis
    by (auto simp: digit_value_def digit_char_def)
qed

lemma digits_value_snoc: "digits_value (ds @ [c]) = 10 * digits_value ds + digit_value c"
  by (simp add: digits_value_def)

lemma digits_value_dec: "digits_value (dec n) = n"
proof (induction n rule: dec.induct)
  case (1 n)
  show ?case
  proof (cases "n < 10")
    case True
    then show ?thesis
      by (simp add: dec.simps [of n] digits_value_def digit_value_digit_char)
  next
    case False
    then show ?thesis
      using 1 by (simp add: dec.simps [of n] digits_value_snoc digit_value_digit_char)
  qed
qed

lemma length_ge_8:
  "8 \<le> length s \<Longrightarrow> \<exists>a b c d e f g h r. s = a # b # c # d # e # f # g # h # r"
  by (auto simp: Suc_le_length_iff eval_nat_numeral)

lemma digit_not_space:
  "is_digit c \<Longrightarrow> \<not> is_white_space c \<and> c \<noteq> CHR ''-'' \<and> c \<noteq> CHR ''+''"
  by (auto simp: is_digit_def is_white_space_def)

lemma parseInt_digits:
  assumes "ds \<noteq> []" "\<forall>c \<in> set ds. is_digit c"
  shows "parseInt ds = Num (int (digits_value ds))"
proof -
  obtain c r where ds: "ds = c # r"
    using assms(1) by (cases ds) auto
  have c: "\<not> is_white_space c" "c \<noteq> CHR ''-''" "c \<noteq> CHR ''+''" "is_digit c"
    using ds assms(2) digit_not_space [of c] by auto
  have r: "takeWhile is_digit r = r"
    using ds assms(2) by (simp add: takeWhile_eq_all_conv)
  show ?thesis
    by (simp add: parseInt_def ds c r Let_def)
qed

lemma num_to_string_nat: "num_to_string (Num (int n)) = dec n"
  by (simp add: num_to_string_def)

lemma formatICSDate_parts:
  assumes "8 \<le> length s"
  shows "formatICSDate (Some s)
         = num_to_string (parseInt (take 4 s)) @ ''-''
           @ num_to_string (parseInt (take 2 (drop 4 s))) @ ''-''
           @ num_to_string (parseInt (take 2 (drop 6 s)))"
proof -
  obtain a b c d e f g h r where s: "s = a # b # c # d # e # f # g # h # r"
    using length_ge_8 [OF assms] by blast
  show ?thesis
    by (simp add: s formatICSDate_def substring_def)
qed

lemma formatICSDate_first_8:
  assumes "8 \<le> length s"
  shows "formatICSDate (Some s) = formatICSDate (Some (take 8 s))"
proof -
  obtain a b c d e f g h r where s: "s = a # b # c # d # e # f # g # h # r"
    using length_ge_8 [OF assms] by blast
  show ?thesis
    by (simp add: s formatICSDate_def substring_def)
qed

lemma formatICSDate_digits:
  assumes "8 \<le> length s" "\<forall>c \<in> set (take 8 s). is_digit c"
  shows "formatICSDate (Some s)
         = dec (date_year s) @ ''-'' @ dec (date_month s) @ ''-'' @ dec (date_day s)"
proof -
  obtain a b c d e f g h r where s: "s = a # b # c # d # e # f # g # h # r"
    using length_ge_8 [OF assms(1)] by blast
  have y: "parseInt [a, b, c, d] = Num (int (digits_value [a, b, c, d]))"
    using assms(2) s by (intro parseInt_digits) auto
  have m: "parseInt [e, f] = Num (int (digits_value [e, f]))"
    using assms(2) s by (intro parseInt_digits) auto
  have dd: "parseInt [g, h] = Num (int (digits_value [g, h]))"
    using assms(2) s by (intro parseInt_digits) auto
  have "formatICSDate (Some s)
        = dec (digits_value [a, b, c, d]) @ ''-'' @ dec (digits_value [e, f]) @ ''-''
          @ dec (digits_value [g, h])"
    by (simp add: s formatICSDate_def substring_def y m dd num_to_string_nat)
  also have "digits_value [a, b, c, d] = date_year s"
    by (simp add: s digits_value_def date_year_def)
  also have "digits_value [e, f] = date_month s"
    by (simp add: s digits_value_def date_month_def)
  also have "digits_value [g, h] = date_day s"
    by (simp add: s digits_value_def date_day_def)
  finally show ?thesis .
qed

text \<open>
  Claim C6. A string of at least 8 characters is decoded from its first 8 characters
  alone, as the three numbers that \<^verbatim>\<open>parseInt\<close> reads at offsets 0 to 3, 4 to 5 and 6 to
  7, printed without padding and joined by \<open>-\<close>; when those 8 characters are digits, the
  numbers are the decimal values of the digits at these offsets. An absent argument and a
  string of fewer than 8 characters give the empty string.
\<close>

theorem formatICSDate_decodes:
  "(8 \<le> length s \<longrightarrow>
      formatICSDate (Some s) = formatICSDate (Some (take 8 s))
      \<and> formatICSDate (Some s)
          = num_to_string (parseInt (take 4 s)) @ ''-''
            @ num_to_string (parseInt (take 2 (drop 4 s))) @ ''-''
            @ num_to_string (parseInt (take 2 (drop 6 s))))
   \<and> (8 \<le> length s \<and> (\<forall>c \<in> set (take 8 s). is_digit c) \<longrightarrow>
      formatICSDate (Some s)
      = dec (date_year s) @ ''-'' @ dec (date_month s) @ ''-'' @ dec (date_day s))
   \<and> formatICSDate None = []
   \<and> (length s < 8 \<longrightarrow> formatICSDate (Some s) = [])"
proof (intro conjI impI)
  assume "8 \<le> length s"
  then show "formatICSDate (Some s) = formatICSDate (Some (take 8 s))"
    by (rule formatICSDate_first_8)
next
  assume "8 \<le> length s"
  then show "formatICSDate (Some s)
          = num_to_string (parseInt (take 4 s)) @ ''-''
            @ num_to_string (parseInt (take 2 (drop 4 s))) @ ''-''
            @ num_to_string (parseInt (take 2 (drop 6 s)))"
    by (rule formatICSDate_parts)
next
  assume "8 \<le> length s \<and> (\<forall>c \<in> set (take 8 s). is_digit c)"
  then show "formatICSDate (Some s)
      = dec (date_year s) @ ''-'' @ dec (date_month s) @ ''-'' @ dec (date_day s)"
    by (intro formatICSDate_digits) auto
next
  show "formatICSDate None = []"
    by (simp add: formatICSDate_def)
next
  assume "length s < 8"
  then show "formatICSDate (Some s) = []"
    by (simp add: formatICSDate_def)
qed

text \<open>
  A date followed by a time of day is decoded from its first 8 characters, and a string of
  7 digits gives the empty string.
\<close>

theorem formatICSDate_decodes_witness:
  "8 \<le> length ''20240115T120000''
   \<and> list_all is_digit (take 8 ''20240115T120000'')
   \<and> formatICSDate (Some ''20240115T120000'') = ''2024-1-15''
   \<and> length ''2024011'' < 8
   \<and> formatICSDate (Some ''2024011'') = []"
proof -
  have h: "8 \<le> length ''20240115T120000''
      \<and> (\<forall>c \<in> set (take 8 ''20240115T120000''). is_digit c)"
    by (simp add: is_digit_def)
  then have "formatICSDate (Some ''20240115T120000'')
      = dec (date_year ''20240115T120000'') @ ''-'' @ dec (date_month ''20240115T120000'')
        @ ''-'' @ dec (date_day ''20240115T120000'')"
    using formatICSDate_decodes [of "''20240115T120000''"] by blast
  then have long: "formatICSDate (Some ''20240115T120000'') = ''2024-1-15''"
    by (simp add: date_year_def date_month_def date_day_def digit_value_def dec.simps
        digit_char_def)
  have short: "formatICSDate (Some ''2024011'') = []"
    using formatICSDate_decodes [of "''2024011''"] by simp
  show ?thesis
    using h long short by (simp add: list_all_iff)
qed

section \<open>Properties of the color resolution\<close>








section \<open>Properties of the annotation pass\<close>

lemma cell_dateStr_do_write: "cell_dateStr (do_write c w) = cell_dateStr c"
  by (cases w) (simp_all add: cell_dateStr_def split: option.splits)

lemma cell_dateStr_writes: "cell_dateStr (foldl do_write c ws) = cell_dateStr c"
  by (induction ws arbitrary: c) (simp_all add: cell_dateStr_do_write)

lemma cell_dateStr_apply_cell: "cell_dateStr (apply_cell wd dm r c) = cell_dateStr c"
  by (simp add: apply_cell_def cell_dateStr_writes)

lemma cell_color_apply_cell: "cell_color wd r (apply_cell wd dm r c) = cell_color wd r c"
  by (simp add: cell_color_def cell_dateStr_apply_cell)

lemma cell_writes_cases:
  "cell_writes wd dm r c =
     (if cell_dateStr c = [] then []
      else if truthy_val (cell_color wd r c) then
        (if \<not> truthy (customColored c) then
           [SetMarker ''true'', SetBackgroundColor (val_to_string (the (cell_color wd r c))),
            SetOpacity (if dm then ''0.7'' else ''0.9'')]
         else [])
      else if truthy (customColored c) then [SetBackgroundColor [], SetOpacity [], DeleteMarker]
      else [])"
  by (simp add: cell_writes_def cell_color_def Let_def)

lemma marker_apply_cell:
  "cell_dateStr c \<noteq> [] \<Longrightarrow>
   truthy (customColored (apply_cell wd dm r c)) = truthy_val (cell_color wd r c)"
  by (simp add: apply_cell_def cell_writes_cases)

lemma cell_writes_second_pass: "cell_writes wd dm r (apply_cell wd dm r c) = []"
proof (cases "cell_dateStr c = []")
  case True
  then show ?thesis
    by (simp add: cell_writes_cases cell_dateStr_apply_cell)
next
  case False
  then show ?thesis
    using marker_apply_cell [OF False, of wd dm r]
    by (simp add: cell_writes_cases [of wd dm r "apply_cell wd dm r c"] cell_dateStr_apply_cell
        cell_color_apply_cell)
qed

lemma apply_cell_idem: "apply_cell wd dm r (apply_cell wd dm r c) = apply_cell wd dm r c"
  using cell_writes_second_pass [of wd dm r c]
  by (simp add: apply_cell_def [of wd dm r "apply_cell wd dm r c"])

text \<open>
  Claim C7. After one pass over any list of cells, a second pass with the same store,
  weekday function and theme makes no assignment to any cell, and so leaves every cell as
  the first pass left it.
\<close>

theorem applyCustomColors_second_pass:
  "concat (map (cell_writes wd dm r) (applyCustomColors wd dm r cells)) = []
   \<and> applyCustomColors wd dm r (applyCustomColors wd dm r cells) = applyCustomColors wd dm r cells"
proof
  have "\<forall>c \<in> set (applyCustomColors wd dm r cells). cell_writes wd dm r c = []"
    by (auto simp: applyCustomColors_def cell_writes_second_pass)
  then show "concat (map (cell_writes wd dm r) (applyCustomColors wd dm r cells)) = []"
    by simp
  show "applyCustomColors wd dm r (applyCustomColors wd dm r cells)
      = applyCustomColors wd dm r cells"
    by (simp add: applyCustomColors_def apply_cell_idem)
qed

text \<open>
  Claim C8. A cell that carries the marker and has a date for which the store resolves no
  color gets exactly three assignments: background color and opacity are set to the empty
  string and the marker is deleted. A cell without the marker for which no color is
  resolved, or which has no date, gets no assignment.
\<close>

theorem apply_cell_reverts:
  "(truthy (customColored c) \<and> cell_dateStr c \<noteq> [] \<and> cell_color wd r c = None \<longrightarrow>
      cell_writes wd dm r c = [SetBackgroundColor [], SetOpacity [], DeleteMarker]
      \<and> apply_cell wd dm r c = c\<lparr>backgroundColor := [], opacity := [], customColored := None\<rparr>)
   \<and> (\<not> truthy (customColored c) \<and> (cell_dateStr c = [] \<or> cell_color wd r c = None) \<longrightarrow>
      cell_writes wd dm r c = [] \<and> apply_cell wd dm r c = c)"
proof (intro conjI impI)
  assume a: "truthy (customColored c) \<and> cell_dateStr c \<noteq> [] \<and> cell_color wd r c = None"
  then show w: "cell_writes wd dm r c = [SetBackgroundColor [], SetOpacity [], DeleteMarker]"
    by (simp add: cell_writes_cases)
  show "apply_cell wd dm r c = c\<lparr>backgroundColor := [], opacity := [], customColored := None\<rparr>"
    by (simp add: apply_cell_def w)
next
  assume b: "\<not> truthy (customColored c) \<and> (cell_dateStr c = [] \<or> cell_color wd r c = None)"
  then show w: "cell_writes wd dm r c = []"
    by (auto simp: cell_writes_cases)
  show "apply_cell wd dm r c = c"
    by (simp add: apply_cell_def w)
qed

text \<open>
  A cell colored earlier, for a date on which the store now holds neither an event nor a
  weekday color, is reverted; the reverted cell is then left alone.
\<close>

theorem apply_cell_reverts_witness:
  "apply_cell (\<lambda>d. ''Tuesday'') True
     \<lparr>dayColors = None, calendarColors = None, calendarEvents = None, storedCalendars = None\<rparr>
     \<lparr>data_datekey = None, data_date = Some ''2024-1-16'', customColored = Some ''true'',
      backgroundColor = ''green'', opacity = ''0.7''\<rparr>
   = \<lparr>data_datekey = None, data_date = Some ''2024-1-16'', customColored = None,
      backgroundColor = [], opacity = []\<rparr>
   \<and> apply_cell (\<lambda>d. ''Tuesday'') True
     \<lparr>dayColors = None, calendarColors = None, calendarEvents = None, storedCalendars = None\<rparr>
     \<lparr>data_datekey = None, data_date = Some ''2024-1-16'', customColored = None,
      backgroundColor = [], opacity = []\<rparr>
   = \<lparr>data_datekey = None, data_date = Some ''2024-1-16'', customColored = None,
      backgroundColor = [], opacity = []\<rparr>"
  using apply_cell_reverts [of
      "\<lparr>data_datekey = None, data_date = Some ''2024-1-16'', customColored = Some ''true'',
        backgroundColor = ''green'', opacity = ''0.7''\<rparr>"
      "\<lambda>d. ''Tuesday''"
      "\<lparr>dayColors = None, calendarColors = None, calendarEvents = None, storedCalendars = None\<rparr>"
      True]
    apply_cell_reverts [of
      "\<lparr>data_datekey = None, data_date = Some ''2024-1-16'', customColored = None,
        backgroundColor = [], opacity = []\<rparr>"
      "\<lambda>d. ''Tuesday''"
      "\<lparr>dayColors = None, calendarColors = None, calendarEvents = None, storedCalendars = None\<rparr>"
      True]
  by (simp add: cell_color_def cell_dateStr_def resolve_color_def or_default_def
      get_property_def object_prototype_def)

section \<open>Properties of the calendar list\<close>

lemma to_stored_id: "to_stored cals = cals"
  by (simp add: to_stored_def getTitle_def getEvents_def map_idI)

lemma foldl_concat_events:
  "foldl (\<lambda>acc cal. acc @ getEvents cal) acc cals = acc @ concat (map events cals)"
  by (induction cals arbitrary: acc) (simp_all add: getEvents_def)

lemma settings_submit_invariant: "cache_invariant (storage (settings_submit dc cc p))"
  by (simp add: settings_submit_def cache_invariant_def or_default_def to_stored_id
      foldl_concat_events Let_def)

text \<open>Loading a calendar, like removing one, writes the calendar list alone.\<close>

lemma load_calendar_keeps_events:
  "calendarEvents (storage (load_calendar cal p)) = calendarEvents (storage p)
   \<and> set_calls (load_calendar cal p) = set_calls p @ [[''loadedCalendars'']]"
  by (simp add: load_calendar_def Let_def)

text \<open>
  Claim C10. For an index that is negative or not below the length of the list, the
  popup is left as it was: the list, the store and the record of the calls of
  \<^verbatim>\<open>chrome.storage.sync.set\<close> are unchanged.
\<close>

theorem removeCalendar_out_of_range:
  "index < 0 \<or> index \<ge> int (length (loadedCalendars p)) \<Longrightarrow> removeCalendar index p = p"
  by (simp add: removeCalendar_def)

theorem removeCalendar_out_of_range_witness:
  "(1 :: int) \<ge> int (length (loadedCalendars work_popup))
   \<and> removeCalendar 1 work_popup = work_popup
   \<and> removeCalendar (- 1) work_popup = work_popup"
  using removeCalendar_out_of_range [of 1 work_popup]
    removeCalendar_out_of_range [of "- 1" work_popup]
  by (simp add: work_popup_def)

text \<open>
  Claim C1, amended. A removal writes the key \<^verbatim>\<open>loadedCalendars\<close> alone: for a valid
  index the stored list is the list without that entry, and the stored
  \<^verbatim>\<open>calendarEvents\<close> stay as they were. The invariant holds again after the next save of
  the settings form, which writes \<^verbatim>\<open>calendarEvents\<close> as the concatenation, in order,
  of the events of the remaining calendars.
\<close>

theorem removeCalendar_then_submit:
  "cache_invariant (storage (settings_submit dc cc (removeCalendar index p)))
   \<and> calendarEvents (storage (settings_submit dc cc (removeCalendar index p)))
       = Some (concat (map events (loadedCalendars (removeCalendar index p))))
   \<and> calendarEvents (storage (removeCalendar index p)) = calendarEvents (storage p)
   \<and> (0 \<le> index \<and> index < int (length (loadedCalendars p)) \<longrightarrow>
       loadedCalendars (removeCalendar index p) = splice1 (nat index) (loadedCalendars p)
       \<and> storedCalendars (storage (removeCalendar index p))
           = Some (splice1 (nat index) (loadedCalendars p))
       \<and> set_calls (removeCalendar index p) = set_calls p @ [[''loadedCalendars'']])"
proof (intro conjI impI)
  show "cache_invariant (storage (settings_submit dc cc (removeCalendar index p)))"
    by (rule settings_submit_invariant)
  show "calendarEvents (storage (settings_submit dc cc (removeCalendar index p)))
       = Some (concat (map events (loadedCalendars (removeCalendar index p))))"
    by (simp add: settings_submit_def foldl_concat_events Let_def)
  show "calendarEvents (storage (removeCalendar index p)) = calendarEvents (storage p)"
    by (simp add: removeCalendar_def Let_def)
next
  assume "0 \<le> index \<and> index < int (length (loadedCalendars p))"
  then have r: "removeCalendar index p
      = p\<lparr>loadedCalendars := splice1 (nat index) (loadedCalendars p),
           storage := (storage p)\<lparr>storedCalendars := Some (splice1 (nat index) (loadedCalendars p))\<rparr>,
           set_calls := set_calls p @ [[''loadedCalendars'']]\<rparr>"
    by (simp add: removeCalendar_def Let_def to_stored_id)
  show "loadedCalendars (removeCalendar index p) = splice1 (nat index) (loadedCalendars p)"
    by (simp add: r)
  show "storedCalendars (storage (removeCalendar index p))
           = Some (splice1 (nat index) (loadedCalendars p))"
    by (simp add: r)
  show "set_calls (removeCalendar index p) = set_calls p @ [[''loadedCalendars'']]"
    by (simp add: r)
qed

text \<open>
  Removing the only calendar and saving: the store then holds no calendar and no event.
\<close>

theorem removeCalendar_then_submit_witness:
  "(0 :: int) \<le> 0 \<and> (0 :: int) < int (length (loadedCalendars work_popup))
   \<and> storedCalendars (storage (removeCalendar 0 work_popup)) = Some []
   \<and> set_calls (removeCalendar 0 work_popup) = [[''loadedCalendars'']]
   \<and> calendarEvents (storage (settings_submit Map.empty Map.empty (removeCalendar 0 work_popup)))
       = Some []"
  using removeCalendar_then_submit [of Map.empty Map.empty 0 work_popup]
  by (simp add: work_popup_def splice1_def)

text \<open>
  Claim C1 as stated fails: the store of the example popup satisfies the invariant, and
  after the removal of its only calendar the store still lists the event of that
  calendar.
\<close>

theorem removeCalendar_stale_events:
  "cache_invariant (storage work_popup)
   \<and> calendarEvents (storage (removeCalendar 0 work_popup)) = Some [work_event]
   \<and> storedCalendars (storage (removeCalendar 0 work_popup)) = Some []
   \<and> \<not> cache_invariant (storage (removeCalendar 0 work_popup))"
  by (simp add: cache_invariant_def or_default_def removeCalendar_def splice1_def to_stored_def
      work_popup_def Let_def)

end
